theory Spec2Isabelle
  imports Main
begin

section \<open>The URL shortener: data model\<close>

text \<open>
  The Go errors of the program. \<open>ErrNotFound\<close> is the sentinel of package types,
  \<open>ErrNoRows\<close> the sentinel \<^verbatim>\<open>sql.ErrNoRows\<close>, \<open>DriverError\<close> any other error the
  SQLite driver hands back (its message is kept), and \<open>Wrapped m e\<close> is the value of
  \<^verbatim>\<open>fmt.Errorf(m + ": %w", e)\<close>.
\<close>

datatype error =
    ErrNotFound
  | ErrNoRows
  | DriverError string
  | Wrapped string error

text \<open>
  \<^verbatim>\<open>errors.Is\<close>: an error matches a target when it equals it, or when the error it
  wraps does. The targets that matter are the sentinels and the driver's errors; for
  them equality of values is Go's comparison.
\<close>

fun errors_Is :: "error \<Rightarrow> error \<Rightarrow> bool" where
  "errors_Is (Wrapped m e) t = (Wrapped m e = t \<or> errors_Is e t)"
| "errors_Is e t = (e = t)"

text \<open>The struct \<^verbatim>\<open>types.URL\<close>: one row of the table \<^verbatim>\<open>urls\<close>.\<close>

record URL =
  ID :: int
  Original :: string
  Short :: string

text \<open>
  The database behind \<^verbatim>\<open>SQLitePersistence.db\<close>: the rows of \<^verbatim>\<open>urls\<close> in insertion
  order, and the counter that AUTOINCREMENT keeps for the column \<^verbatim>\<open>id\<close>.
\<close>

record db =
  urls :: "URL list"
  sqlite_sequence :: int

text \<open>
  What one call meets outside the program: whether the driver fails the SELECT or the
  INSERT for a reason of its own (I/O, a locked file), with the driver's message, and
  the raw numbers the generator of \<^verbatim>\<open>math/rand\<close> yields once it has been seeded with
  the current time.
\<close>

record env =
  query_fault :: "string option"
  exec_fault :: "string option"
  rand_raw :: "nat \<Rightarrow> nat"

definition base62Chars :: string where
  "base62Chars = ''0123456789abcdefghijklmnopqrstuvwxyzABCDEFGHIJKLMNOPQRSTUVWXYZ''"

definition shortCodeLength :: nat where
  "shortCodeLength = 6"

section \<open>The SQL statements\<close>

text \<open>
  \<^verbatim>\<open>CREATE TABLE IF NOT EXISTS urls (id INTEGER PRIMARY KEY AUTOINCREMENT,
  original TEXT NOT NULL UNIQUE, short TEXT NOT NULL UNIQUE)\<close> on a new database file.
\<close>

definition create_table :: db where
  "create_table = \<lparr>urls = [], sqlite_sequence = 0\<rparr>"

text \<open>
  \<^verbatim>\<open>QueryRow("SELECT short FROM urls WHERE original = ?", o).Scan(&shortCode)\<close>:
  the first matching row, \<^verbatim>\<open>sql.ErrNoRows\<close> when there is none.
\<close>

definition select_short :: "env \<Rightarrow> db \<Rightarrow> string \<Rightarrow> error + string" where
  "select_short e s original =
     (case query_fault e of
        Some m \<Rightarrow> Inl (DriverError m)
      | None \<Rightarrow>
          (case find (\<lambda>r. Original r = original) (urls s) of
             None \<Rightarrow> Inl ErrNoRows
           | Some r \<Rightarrow> Inr (Short r)))"

text \<open>
  \<^verbatim>\<open>QueryRow("SELECT original FROM urls WHERE short = ?", c).Scan(&originalURL)\<close>.
\<close>

definition select_original :: "env \<Rightarrow> db \<Rightarrow> string \<Rightarrow> error + string" where
  "select_original e s short =
     (case query_fault e of
        Some m \<Rightarrow> Inl (DriverError m)
      | None \<Rightarrow>
          (case find (\<lambda>r. Short r = short) (urls s) of
             None \<Rightarrow> Inl ErrNoRows
           | Some r \<Rightarrow> Inr (Original r)))"

text \<open>
  \<^verbatim>\<open>Exec("INSERT INTO urls (original, short) VALUES (?, ?)", o, c)\<close>. The two UNIQUE
  constraints of the table are checked by the database, which names the column \<^verbatim>\<open>short\<close>
  when both are violated; a statement that fails changes nothing, one that succeeds
  appends the row under the next \<^verbatim>\<open>id\<close>.
\<close>

definition insert_url :: "env \<Rightarrow> db \<Rightarrow> string \<Rightarrow> string \<Rightarrow> error option \<times> db" where
  "insert_url e s original short =
     (case exec_fault e of
        Some m \<Rightarrow> (Some (DriverError m), s)
      | None \<Rightarrow>
          if short \<in> set (map Short (urls s))
          then (Some (DriverError ''UNIQUE constraint failed: urls.short''), s)
          else if original \<in> set (map Original (urls s))
          then (Some (DriverError ''UNIQUE constraint failed: urls.original''), s)
          else (None,
                s\<lparr>urls := urls s @
                     [\<lparr>ID = sqlite_sequence s + 1, Original = original, Short = short\<rparr>],
                  sqlite_sequence := sqlite_sequence s + 1\<rparr>))"

section \<open>Package persistence\<close>

text \<open>
  \<^verbatim>\<open>rand.Intn(n)\<close> of the standard library: a number in \<open>[0, n)\<close> from the generator's
  raw output. It panics for \<open>n \<le> 0\<close>; the program calls it with \<open>n = 62\<close> only.
\<close>

definition Intn :: "nat \<Rightarrow> nat \<Rightarrow> nat" where
  "Intn raw n = raw mod n"

text \<open>
  \<^verbatim>\<open>generateShortCode\<close>: after seeding, position \<open>i\<close> of the buffer of
  \<open>shortCodeLength\<close> bytes receives \<^verbatim>\<open>base62Chars[rand.Intn(len(base62Chars))]\<close>.
\<close>

definition generateShortCode :: "env \<Rightarrow> string" where
  "generateShortCode e =
     map (\<lambda>i. base62Chars ! Intn (rand_raw e i) (length base62Chars)) [0..<shortCodeLength]"

text \<open>\<^verbatim>\<open>SQLitePersistence.Save\<close>, returning the result and the database after the call.\<close>

definition SQLitePersistence_Save :: "env \<Rightarrow> db \<Rightarrow> string \<Rightarrow> (error + string) \<times> db" where
  "SQLitePersistence_Save e s originalURL =
     (case select_short e s originalURL of
        Inr shortCode \<Rightarrow> (Inr shortCode, s)
      | Inl err \<Rightarrow>
          if err \<noteq> ErrNoRows
          then (Inl (Wrapped ''persistence: failed to query url'' err), s)
          else
            (let shortCode = generateShortCode e in
             case insert_url e s originalURL shortCode of
               (Some err', s') \<Rightarrow> (Inl (Wrapped ''persistence: failed to insert url'' err'), s')
             | (None, s') \<Rightarrow> (Inr shortCode, s')))"

text \<open>\<^verbatim>\<open>SQLitePersistence.Get\<close>.\<close>

definition SQLitePersistence_Get :: "env \<Rightarrow> db \<Rightarrow> string \<Rightarrow> (error + string) \<times> db" where
  "SQLitePersistence_Get e s shortCode =
     (case select_original e s shortCode of
        Inl err \<Rightarrow>
          if err = ErrNoRows then (Inl ErrNotFound, s)
          else (Inl (Wrapped ''persistence: failed to get url'' err), s)
      | Inr originalURL \<Rightarrow> (Inr originalURL, s))"

section \<open>Package types and package core\<close>

text \<open>
  The interface \<^verbatim>\<open>types.URLPersistence\<close>: any implementation, over any state \<open>'s\<close> of
  its own.
\<close>

record 's URLPersistence =
  Save :: "'s \<Rightarrow> string \<Rightarrow> (error + string) \<times> 's"
  Get :: "'s \<Rightarrow> string \<Rightarrow> (error + string) \<times> 's"

definition SQLitePersistence :: "env \<Rightarrow> db URLPersistence" where
  "SQLitePersistence e = \<lparr>Save = SQLitePersistence_Save e, Get = SQLitePersistence_Get e\<rparr>"

text \<open>\<^verbatim>\<open>Core.ShortenURL\<close> and \<^verbatim>\<open>Core.GetURL\<close>; the record is the field \<^verbatim>\<open>persistence\<close>.\<close>

definition ShortenURL :: "'s URLPersistence \<Rightarrow> 's \<Rightarrow> string \<Rightarrow> (error + string) \<times> 's" where
  "ShortenURL persistence s originalURL =
     (case Save persistence s originalURL of
        (Inl err, s') \<Rightarrow> (Inl (Wrapped ''core: failed to shorten url'' err), s')
      | (Inr shortCode, s') \<Rightarrow> (Inr shortCode, s'))"

definition GetURL :: "'s URLPersistence \<Rightarrow> 's \<Rightarrow> string \<Rightarrow> (error + string) \<times> 's" where
  "GetURL persistence s shortCode =
     (case Get persistence s shortCode of
        (Inl err, s') \<Rightarrow> (Inl (Wrapped ''core: failed to get url'' err), s')
      | (Inr originalURL, s') \<Rightarrow> (Inr originalURL, s'))"

section \<open>Store states\<close>

text \<open>The two UNIQUE constraints of the table, as a predicate on the database.\<close>

definition unique_inv :: "db \<Rightarrow> bool" where
  "unique_inv s \<longleftrightarrow> distinct (map Original (urls s)) \<and> distinct (map Short (urls s))"

text \<open>
  \<open>reaches s t\<close>: the database \<open>t\<close> is what some sequence of \<open>Save\<close> and \<open>Get\<close> calls,
  each in a world of its own, makes of \<open>s\<close>. A reachable database is one the program
  builds from the table it creates.
\<close>

inductive reaches :: "db \<Rightarrow> db \<Rightarrow> bool" where
  reaches_refl: "reaches s s"
| reaches_Save: "reaches s t \<Longrightarrow> reaches s (snd (SQLitePersistence_Save e t u))"
| reaches_Get: "reaches s t \<Longrightarrow> reaches s (snd (SQLitePersistence_Get e t c))"

definition reachable :: "db \<Rightarrow> bool" where
  "reachable s \<longleftrightarrow> reaches create_table s"

text \<open>
  A history of the store: the calls made on it, in order, each with the world it meets.
  \<open>final_db s cs\<close> is the database the calls \<open>cs\<close> leave when they start on \<open>s\<close>, and
  \<open>returned_codes s cs\<close> lists the codes that the successful \<open>Save\<close> calls among them
  returned.
\<close>

datatype call = Shorten env string | Resolve env string

fun final_db :: "db \<Rightarrow> call list \<Rightarrow> db" where
  "final_db s [] = s"
| "final_db s (Shorten e u # cs) = final_db (snd (SQLitePersistence_Save e s u)) cs"
| "final_db s (Resolve e c # cs) = final_db (snd (SQLitePersistence_Get e s c)) cs"

fun returned_codes :: "db \<Rightarrow> call list \<Rightarrow> string list" where
  "returned_codes s [] = []"
| "returned_codes s (Shorten e u # cs) =
     (case SQLitePersistence_Save e s u of
        (Inr c, s') \<Rightarrow> c # returned_codes s' cs
      | (Inl err, s') \<Rightarrow> returned_codes s' cs)"
| "returned_codes s (Resolve e c # cs) = returned_codes (snd (SQLitePersistence_Get e s c)) cs"

text \<open>A code of the generator's shape: six characters of the alphabet.\<close>

definition valid_code :: "string \<Rightarrow> bool" where
  "valid_code c \<longleftrightarrow> length c = 6 \<and> set c \<subseteq> set base62Chars"

text \<open>A digit, a lowercase or an uppercase ASCII letter, by its byte value.\<close>

definition is_alnum :: "char \<Rightarrow> bool" where
  "is_alnum ch \<longleftrightarrow>
     (let n = of_char ch :: nat
      in (48 \<le> n \<and> n \<le> 57) \<or> (97 \<le> n \<and> n \<le> 122) \<or> (65 \<le> n \<and> n \<le> 90))"

section \<open>Example worlds and databases\<close>

text \<open>
  A world where the driver works and the generator yields \<open>0, 1, 2, \<dots>\<close> (the code
  \<open>012345\<close>); one where it yields \<open>10, 11, \<dots>\<close> (the code \<open>abcdef\<close>); one where the
  SELECT fails. Two calls in \<open>quiet_world\<close> are two calls whose seeds, taken from the
  clock, coincide.
\<close>

definition quiet_world :: env where
  "quiet_world = \<lparr>query_fault = None, exec_fault = None, rand_raw = (\<lambda>i. i)\<rparr>"

definition later_world :: env where
  "later_world = \<lparr>query_fault = None, exec_fault = None, rand_raw = (\<lambda>i. i + 10)\<rparr>"

definition broken_world :: env where
  "broken_world =
     \<lparr>query_fault = Some ''disk I/O error'', exec_fault = None, rand_raw = (\<lambda>i. i)\<rparr>"

definition row_a :: URL where
  "row_a = \<lparr>ID = 1, Original = ''https://example.com/a'', Short = ''012345''\<rparr>"

definition row_b :: URL where
  "row_b = \<lparr>ID = 2, Original = ''https://example.com/b'', Short = ''abcdef''\<rparr>"

definition one_row :: db where
  "one_row = \<lparr>urls = [row_a], sqlite_sequence = 1\<rparr>"

definition two_rows :: db where
  "two_rows = \<lparr>urls = [row_a, row_b], sqlite_sequence = 2\<rparr>"


section \<open>Lookups in the table\<close>

lemma find_None_Original:
  "find (\<lambda>r. Original r = u) xs = None \<longleftrightarrow> u \<notin> Original ` set xs"
  by (auto simp: find_None_iff)

lemma find_None_Short:
  "find (\<lambda>r. Short r = c) xs = None \<longleftrightarrow> c \<notin> Short ` set xs"
  by (auto simp: find_None_iff)

lemma find_Some_mem: "find P xs = Some r \<Longrightarrow> r \<in> set xs \<and> P r"
  by (induction xs) (auto split: if_splits)

lemma find_Short_fresh:
  "c \<notin> Short ` set xs \<Longrightarrow>
   find (\<lambda>r. Short r = c) (xs @ [x]) = (if Short x = c then Some x else None)"
  by (induction xs) auto

lemma find_Original_fresh:
  "u \<notin> Original ` set xs \<Longrightarrow>
   find (\<lambda>r. Original r = u) (xs @ [x]) = (if Original x = u then Some x else None)"
  by (induction xs) auto

lemma find_Short_unique:
  "distinct (map Short xs) \<Longrightarrow> r \<in> set xs \<Longrightarrow> find (\<lambda>x. Short x = Short r) xs = Some r"
  by (induction xs) (auto simp: image_iff)

lemma find_Original_unique:
  "distinct (map Original xs) \<Longrightarrow> r \<in> set xs \<Longrightarrow>
   find (\<lambda>x. Original x = Original r) xs = Some r"
  by (induction xs) (auto simp: image_iff)

lemma distinct_count_one:
  "distinct xs \<Longrightarrow> x \<in> set xs \<Longrightarrow> length (filter (\<lambda>y. y = x) xs) = 1"
  by (induction xs) (auto simp: filter_empty_conv)

section \<open>What Save and Get do to the database\<close>

text \<open>Save succeeds in two ways: the row was there, or it has just been appended.\<close>

lemma Save_Inr_cases:
  assumes "SQLitePersistence_Save e s u = (Inr c, s')"
  shows "query_fault e = None \<and>
    ((\<exists>r. find (\<lambda>r. Original r = u) (urls s) = Some r \<and> Short r = c \<and> s' = s) \<or>
     (u \<notin> Original ` set (urls s) \<and> c \<notin> Short ` set (urls s) \<and>
      exec_fault e = None \<and> c = generateShortCode e \<and>
      s' = s\<lparr>urls := urls s @ [\<lparr>ID = sqlite_sequence s + 1, Original = u, Short = c\<rparr>],
             sqlite_sequence := sqlite_sequence s + 1\<rparr>))"
  using assms
  by (auto simp: SQLitePersistence_Save_def select_short_def insert_url_def Let_def
      find_None_Original split: option.splits sum.splits if_splits)

lemma Save_Inr_row:
  assumes "SQLitePersistence_Save e s u = (Inr c, s')"
  shows "\<exists>r\<in>set (urls s'). Original r = u \<and> Short r = c"
  using Save_Inr_cases [OF assms]
proof (elim conjE disjE exE)
  fix r
  assume "find (\<lambda>r. Original r = u) (urls s) = Some r" "Short r = c" "s' = s"
  then show ?thesis by (auto dest: find_Some_mem)
next
  assume "s' = s\<lparr>urls := urls s @ [\<lparr>ID = sqlite_sequence s + 1, Original = u, Short = c\<rparr>],
             sqlite_sequence := sqlite_sequence s + 1\<rparr>"
  then show ?thesis by simp
qed

text \<open>The table after Save: as before, or one row longer.\<close>

lemma Save_urls:
  "urls (snd (SQLitePersistence_Save e s u)) = urls s \<or>
   (u \<notin> Original ` set (urls s) \<and> generateShortCode e \<notin> Short ` set (urls s) \<and>
    urls (snd (SQLitePersistence_Save e s u)) =
      urls s @ [\<lparr>ID = sqlite_sequence s + 1, Original = u, Short = generateShortCode e\<rparr>])"
  by (auto simp: SQLitePersistence_Save_def select_short_def insert_url_def Let_def
      split: option.splits sum.splits if_splits)

lemma Save_new_row:
  "urls (snd (SQLitePersistence_Save e s u)) \<noteq> urls s \<Longrightarrow>
   fst (SQLitePersistence_Save e s u) = Inr (generateShortCode e) \<and>
   urls (snd (SQLitePersistence_Save e s u)) =
     urls s @ [\<lparr>ID = sqlite_sequence s + 1, Original = u, Short = generateShortCode e\<rparr>]"
  by (auto simp: SQLitePersistence_Save_def select_short_def insert_url_def Let_def
      split: option.splits sum.splits if_splits)

lemma Save_unique_inv: "unique_inv s \<Longrightarrow> unique_inv (snd (SQLitePersistence_Save e s u))"
  using Save_urls [of e s u] by (auto simp: unique_inv_def)

lemma Get_same: "snd (SQLitePersistence_Get e s c) = s"
  by (simp add: SQLitePersistence_Get_def split: sum.splits)

section \<open>The alphabet and the generator\<close>

lemma length_base62Chars: "length base62Chars = 62"
  by (simp add: base62Chars_def)

lemma distinct_base62Chars: "distinct base62Chars"
  by (simp add: base62Chars_def)

lemma base62Chars_alnum: "ch \<in> set base62Chars \<longleftrightarrow> is_alnum ch"
  unfolding is_alnum_def by (cases ch) (auto simp: base62Chars_def Let_def)

lemma generateShortCode_valid: "valid_code (generateShortCode e)"
  by (auto simp: valid_code_def generateShortCode_def shortCodeLength_def Intn_def
      length_base62Chars)

section \<open>Sequences of calls\<close>

lemma reaches_urls: "reaches s t \<Longrightarrow> \<exists>zs. urls t = urls s @ zs"
proof (induction rule: reaches.induct)
  case (reaches_Save s t e u)
  then show ?case using Save_urls [of e t u] by auto
qed (auto simp: Get_same)

lemma reaches_unique_inv: "reaches s t \<Longrightarrow> unique_inv s \<Longrightarrow> unique_inv t"
  by (induction rule: reaches.induct) (auto simp: Get_same Save_unique_inv)

lemma reaches_valid:
  "reaches s t \<Longrightarrow> \<forall>r\<in>set (urls s). valid_code (Short r) \<Longrightarrow>
   \<forall>r\<in>set (urls t). valid_code (Short r)"
proof (induction rule: reaches.induct)
  case (reaches_Save s t e u)
  then show ?case using Save_urls [of e t u] generateShortCode_valid [of e] by auto
qed (auto simp: Get_same)

lemma reachable_unique_inv: "reachable s \<Longrightarrow> unique_inv s"
  unfolding reachable_def
  by (erule reaches_unique_inv) (simp add: unique_inv_def create_table_def)

lemma reachable_valid: "reachable s \<Longrightarrow> r \<in> set (urls s) \<Longrightarrow> valid_code (Short r)"
  unfolding reachable_def using reaches_valid [of create_table s]
  by (simp add: create_table_def)

text \<open>The databases that \<open>s\<close> reaches are those that histories starting on \<open>s\<close> leave.\<close>

lemma final_db_append: "final_db s (xs @ ys) = final_db (final_db s xs) ys"
proof (induction xs arbitrary: s)
  case Nil
  show ?case by simp
next
  case (Cons y ys')
  then show ?case by (cases y) simp_all
qed

lemma reaches_final_db: "reaches s (final_db s cs)"
proof (induction cs rule: rev_induct)
  case Nil
  show ?case by (simp add: reaches_refl)
next
  case (snoc x xs)
  show ?case
  proof (cases x)
    case (Shorten e u)
    with reaches_Save [OF snoc, of e u] show ?thesis by (simp add: final_db_append)
  next
    case (Resolve e c)
    with reaches_Get [OF snoc, of e c] show ?thesis by (simp add: final_db_append)
  qed
qed

lemma reaches_is_final_db: "reaches s t \<Longrightarrow> \<exists>cs. t = final_db s cs"
proof (induction rule: reaches.induct)
  case (reaches_refl s)
  have "s = final_db s []" by simp
  then show ?case by blast
next
  case (reaches_Save s t e u)
  then obtain cs where "t = final_db s cs" by blast
  then have "snd (SQLitePersistence_Save e t u) = final_db s (cs @ [Shorten e u])"
    by (simp add: final_db_append)
  then show ?case by blast
next
  case (reaches_Get s t e c)
  then obtain cs where "t = final_db s cs" by blast
  then have "snd (SQLitePersistence_Get e t c) = final_db s (cs @ [Resolve e c])"
    by (simp add: final_db_append)
  then show ?case by blast
qed

lemma reachable_iff_history: "reachable d \<longleftrightarrow> (\<exists>cs. d = final_db create_table cs)"
  unfolding reachable_def using reaches_final_db reaches_is_final_db by blast

text \<open>
  The codes in the table after one Save: those that were there, and the code the call
  returned, if it returned one.
\<close>

lemma Save_codes:
  "Short ` set (urls (snd (SQLitePersistence_Save e s u))) \<subseteq>
     Short ` set (urls s) \<union> (case fst (SQLitePersistence_Save e s u) of
                                Inr c \<Rightarrow> {c} | Inl err \<Rightarrow> {})"
proof (cases "urls (snd (SQLitePersistence_Save e s u)) = urls s")
  case True
  then show ?thesis by auto
next
  case False
  from Save_new_row [OF False] show ?thesis by auto
qed

text \<open>
  Every code in the table after a history was there at its start or was returned by a
  successful Save of that history.
\<close>

lemma stored_codes_were_returned:
  "Short ` set (urls (final_db s cs)) \<subseteq> Short ` set (urls s) \<union> set (returned_codes s cs)"
proof (induction cs arbitrary: s)
  case Nil
  show ?case by simp
next
  case (Cons x cs)
  show ?case
  proof (cases x)
    case (Shorten e u)
    obtain res s' where sv: "SQLitePersistence_Save e s u = (res, s')"
      by (cases "SQLitePersistence_Save e s u")
    from Save_codes [of e s u] sv
    have one: "Short ` set (urls s') \<subseteq>
        Short ` set (urls s) \<union> (case res of Inr c \<Rightarrow> {c} | Inl err \<Rightarrow> {})"
      by simp
    from Cons [of s']
    have rest: "Short ` set (urls (final_db s' cs)) \<subseteq>
        Short ` set (urls s') \<union> set (returned_codes s' cs)" .
    show ?thesis
    proof (cases res)
      case (Inl err)
      with Shorten sv have eq: "final_db s (x # cs) = final_db s' cs"
        "returned_codes s (x # cs) = returned_codes s' cs"
        by simp_all
      from one Inl have "Short ` set (urls s') \<subseteq> Short ` set (urls s)" by simp
      with rest show ?thesis unfolding eq by blast
    next
      case (Inr k)
      with Shorten sv have eq: "final_db s (x # cs) = final_db s' cs"
        "set (returned_codes s (x # cs)) = insert k (set (returned_codes s' cs))"
        by simp_all
      from one Inr have "Short ` set (urls s') \<subseteq> insert k (Short ` set (urls s))" by simp
      with rest show ?thesis unfolding eq by blast
    qed
  next
    case (Resolve e c)
    with Cons [of s] show ?thesis by (simp add: Get_same)
  qed
qed

section \<open>The example calls, evaluated\<close>

lemma quiet_world_faults: "query_fault quiet_world = None" "exec_fault quiet_world = None"
  by (simp_all add: quiet_world_def)

lemma later_world_faults: "query_fault later_world = None" "exec_fault later_world = None"
  by (simp_all add: later_world_def)

lemma gen_quiet: "generateShortCode quiet_world = ''012345''"
  by (simp add: generateShortCode_def quiet_world_def shortCodeLength_def Intn_def
      base62Chars_def upt_rec)

lemma gen_later: "generateShortCode later_world = ''abcdef''"
  by (simp add: generateShortCode_def later_world_def shortCodeLength_def Intn_def
      base62Chars_def upt_rec)

lemma Save_a_create:
  "SQLitePersistence_Save quiet_world create_table ''https://example.com/a'' =
     (Inr ''012345'', one_row)"
  by (simp add: SQLitePersistence_Save_def select_short_def insert_url_def Let_def gen_quiet
      quiet_world_faults one_row_def row_a_def create_table_def)

lemma Save_b_later:
  "SQLitePersistence_Save later_world one_row ''https://example.com/b'' =
     (Inr ''abcdef'', two_rows)"
  by (simp add: SQLitePersistence_Save_def select_short_def insert_url_def Let_def gen_later
      later_world_faults one_row_def two_rows_def row_a_def row_b_def)

lemma Save_b_collides:
  "SQLitePersistence_Save quiet_world one_row ''https://example.com/b'' =
     (Inl (Wrapped ''persistence: failed to insert url''
            (DriverError ''UNIQUE constraint failed: urls.short'')), one_row)"
  by (simp add: SQLitePersistence_Save_def select_short_def insert_url_def Let_def gen_quiet
      quiet_world_faults one_row_def row_a_def)

lemma unique_inv_examples: "unique_inv create_table" "unique_inv one_row"
  by (simp_all add: unique_inv_def create_table_def one_row_def)

lemma reachable_create_table: "reachable create_table"
  by (simp add: reachable_def reaches_refl)

lemma reachable_one_row: "reachable one_row"
  using reaches_Save [OF reaches_refl, of create_table quiet_world "''https://example.com/a''"]
  by (simp add: reachable_def Save_a_create)

section \<open>Properties\<close>

subsection \<open>Save twice\<close>

text \<open>
  C1. If Save returns the code \<open>c\<close> for \<open>u\<close>, then the next Save of \<open>u\<close> whose lookup the
  driver does not fail returns \<open>c\<close> again and leaves the database as it was, whatever
  code the generator would have produced; given the uniqueness constraints the table
  then holds exactly one row for \<open>u\<close>. In general, when a row for an original exists,
  Save returns that row's code and inserts nothing.
\<close>

theorem Save_twice_same_code:
  assumes "query_fault e2 = None"
  shows "(SQLitePersistence_Save e1 s u = (Inr c, s1) \<longrightarrow>
            SQLitePersistence_Save e2 s1 u = (Inr c, s1)) \<and>
         (unique_inv s \<and> SQLitePersistence_Save e1 s u = (Inr c, s1) \<longrightarrow>
            length (filter (\<lambda>r. Original r = u) (urls s1)) = 1) \<and>
         (unique_inv d \<and> r \<in> set (urls d) \<longrightarrow>
            SQLitePersistence_Save e2 d (Original r) = (Inr (Short r), d))"
proof (intro conjI impI)
  assume a: "SQLitePersistence_Save e1 s u = (Inr c, s1)"
  from Save_Inr_cases [OF a]
  have "\<exists>r. find (\<lambda>r. Original r = u) (urls s1) = Some r \<and> Short r = c"
    by (auto simp: find_Original_fresh)
  then show "SQLitePersistence_Save e2 s1 u = (Inr c, s1)"
    using assms by (auto simp: SQLitePersistence_Save_def select_short_def)
next
  assume "unique_inv s \<and> SQLitePersistence_Save e1 s u = (Inr c, s1)"
  then have inv: "unique_inv s" and a: "SQLitePersistence_Save e1 s u = (Inr c, s1)"
    by simp_all
  have d: "distinct (map Original (urls s1))"
    using Save_unique_inv [OF inv, of e1 u] a by (simp add: unique_inv_def)
  have m: "u \<in> set (map Original (urls s1))"
    using Save_Inr_row [OF a] by auto
  have "length (filter (\<lambda>x. x = u) (map Original (urls s1))) = 1"
    using d m by (rule distinct_count_one)
  then show "length (filter (\<lambda>r. Original r = u) (urls s1)) = 1"
    by (simp add: filter_map comp_def)
next
  assume "unique_inv d \<and> r \<in> set (urls d)"
  then have "find (\<lambda>x. Original x = Original r) (urls d) = Some r"
    by (simp add: unique_inv_def find_Original_unique)
  then show "SQLitePersistence_Save e2 d (Original r) = (Inr (Short r), d)"
    using assms by (simp add: SQLitePersistence_Save_def select_short_def)
qed

theorem Save_twice_same_code_witness:
  "query_fault later_world = None \<and>
   SQLitePersistence_Save quiet_world create_table ''https://example.com/a'' =
     (Inr ''012345'', one_row) \<and>
   SQLitePersistence_Save later_world one_row ''https://example.com/a'' =
     (Inr ''012345'', one_row) \<and>
   unique_inv create_table \<and>
   length (filter (\<lambda>r. Original r = ''https://example.com/a'') (urls one_row)) = 1 \<and>
   unique_inv one_row \<and> row_a \<in> set (urls one_row) \<and>
   SQLitePersistence_Save later_world one_row (Original row_a) = (Inr (Short row_a), one_row)"
proof -
  have q: "query_fault later_world = None" by (simp add: later_world_def)
  have r: "row_a \<in> set (urls one_row)" by (simp add: one_row_def)
  from Save_twice_same_code [OF q, of quiet_world create_table "''https://example.com/a''"
      "''012345''" one_row one_row row_a]
  show ?thesis
    using q r Save_a_create unique_inv_examples by simp
qed

subsection \<open>Save, then Get\<close>

text \<open>
  C2. On a database that satisfies the uniqueness constraints: if Save returns the code
  \<open>c\<close> for \<open>u\<close>, by inserting or by reusing the row of \<open>u\<close>, then a Get of \<open>c\<close> on the
  resulting database, when the driver does not fail its lookup, returns \<open>u\<close>.
\<close>

theorem Save_then_Get:
  assumes "unique_inv s" and "SQLitePersistence_Save e1 s u = (Inr c, s1)"
    and "query_fault e2 = None"
  shows "SQLitePersistence_Get e2 s1 c = (Inr u, s1)"
proof -
  from Save_Inr_cases [OF assms(2)]
  consider (reuse) r where "find (\<lambda>r. Original r = u) (urls s) = Some r" "Short r = c" "s1 = s"
    | (fresh) "c \<notin> Short ` set (urls s)"
        "urls s1 = urls s @ [\<lparr>ID = sqlite_sequence s + 1, Original = u, Short = c\<rparr>]"
    by auto
  then have "\<exists>r. find (\<lambda>r. Short r = c) (urls s1) = Some r \<and> Original r = u"
  proof cases
    case reuse
    from find_Some_mem [OF reuse(1)] have "r \<in> set (urls s)" "Original r = u" by simp_all
    with assms(1) reuse show ?thesis
      using find_Short_unique [of "urls s" r] by (auto simp: unique_inv_def)
  next
    case fresh
    then show ?thesis by (simp add: find_Short_fresh)
  qed
  then show ?thesis
    using assms(3) by (auto simp: SQLitePersistence_Get_def select_original_def)
qed

theorem Save_then_Get_witness:
  "unique_inv create_table \<and>
   SQLitePersistence_Save quiet_world create_table ''https://example.com/a'' =
     (Inr ''012345'', one_row) \<and>
   query_fault quiet_world = None \<and>
   SQLitePersistence_Get quiet_world one_row ''012345'' = (Inr ''https://example.com/a'', one_row)"
  using Save_then_Get [OF unique_inv_examples(1) Save_a_create quiet_world_faults(1)]
    Save_a_create unique_inv_examples(1) quiet_world_faults(1)
  by simp

subsection \<open>Get of stored and of unknown codes\<close>

text \<open>
  C3. When the driver does not fail the lookup: a Get of a code that no row of the table
  carries fails with \<open>ErrNotFound\<close>; a Get of a stored code does not fail, and under the
  uniqueness constraints it returns the original of the row that carries the code. In
  particular, after any history of calls on the created table, a Get of a code that none
  of the history's Save calls returned fails with \<open>ErrNotFound\<close>.
\<close>

theorem Get_NotFound_iff_absent:
  assumes "query_fault e = None"
  shows "(c \<notin> set (map Short (urls s)) \<longrightarrow>
            SQLitePersistence_Get e s c = (Inl ErrNotFound, s)) \<and>
         (unique_inv d \<and> r \<in> set (urls d) \<longrightarrow>
            SQLitePersistence_Get e d (Short r) = (Inr (Original r), d)) \<and>
         (c' \<in> set (map Short (urls d)) \<longrightarrow>
            (\<exists>u. SQLitePersistence_Get e d c' = (Inr u, d))) \<and>
         (k \<notin> set (returned_codes create_table cs) \<longrightarrow>
            SQLitePersistence_Get e (final_db create_table cs) k =
              (Inl ErrNotFound, final_db create_table cs))"
proof (intro conjI impI)
  assume "c \<notin> set (map Short (urls s))"
  then have "find (\<lambda>r. Short r = c) (urls s) = None"
    by (simp add: find_None_Short)
  then show "SQLitePersistence_Get e s c = (Inl ErrNotFound, s)"
    using assms by (simp add: SQLitePersistence_Get_def select_original_def)
next
  assume "unique_inv d \<and> r \<in> set (urls d)"
  then have "find (\<lambda>x. Short x = Short r) (urls d) = Some r"
    by (simp add: unique_inv_def find_Short_unique)
  then show "SQLitePersistence_Get e d (Short r) = (Inr (Original r), d)"
    using assms by (simp add: SQLitePersistence_Get_def select_original_def)
next
  assume "c' \<in> set (map Short (urls d))"
  then obtain r' where "find (\<lambda>r. Short r = c') (urls d) = Some r'"
    by (cases "find (\<lambda>r. Short r = c') (urls d)") (auto simp: find_None_Short)
  then show "\<exists>u. SQLitePersistence_Get e d c' = (Inr u, d)"
    using assms by (simp add: SQLitePersistence_Get_def select_original_def)
next
  assume "k \<notin> set (returned_codes create_table cs)"
  with stored_codes_were_returned [of create_table cs]
  have "k \<notin> Short ` set (urls (final_db create_table cs))"
    by (auto simp: create_table_def)
  then have "find (\<lambda>r. Short r = k) (urls (final_db create_table cs)) = None"
    by (simp add: find_None_Short)
  then show "SQLitePersistence_Get e (final_db create_table cs) k =
      (Inl ErrNotFound, final_db create_table cs)"
    using assms by (simp add: SQLitePersistence_Get_def select_original_def)
qed

theorem Get_NotFound_iff_absent_witness:
  "query_fault quiet_world = None \<and>
   ''zzzzzz'' \<notin> set (map Short (urls one_row)) \<and>
   SQLitePersistence_Get quiet_world one_row ''zzzzzz'' = (Inl ErrNotFound, one_row) \<and>
   unique_inv one_row \<and> row_a \<in> set (urls one_row) \<and>
   SQLitePersistence_Get quiet_world one_row (Short row_a) = (Inr (Original row_a), one_row) \<and>
   ''012345'' \<in> set (map Short (urls one_row)) \<and>
   (\<exists>u. SQLitePersistence_Get quiet_world one_row ''012345'' = (Inr u, one_row)) \<and>
   returned_codes create_table
     [Shorten quiet_world ''https://example.com/a'', Shorten quiet_world ''https://example.com/b'']
     = [''012345''] \<and>
   final_db create_table
     [Shorten quiet_world ''https://example.com/a'', Shorten quiet_world ''https://example.com/b'']
     = one_row \<and>
   ''abcdef'' \<notin> set (returned_codes create_table
     [Shorten quiet_world ''https://example.com/a'', Shorten quiet_world ''https://example.com/b'']) \<and>
   SQLitePersistence_Get quiet_world
     (final_db create_table
       [Shorten quiet_world ''https://example.com/a'', Shorten quiet_world ''https://example.com/b''])
     ''abcdef'' = (Inl ErrNotFound, one_row)"
proof -
  have h: "''zzzzzz'' \<notin> set (map Short (urls one_row))"
    "row_a \<in> set (urls one_row)" "''012345'' \<in> set (map Short (urls one_row))"
    by (simp_all add: one_row_def row_a_def)
  have t: "returned_codes create_table
     [Shorten quiet_world ''https://example.com/a'', Shorten quiet_world ''https://example.com/b'']
     = [''012345'']"
    "final_db create_table
     [Shorten quiet_world ''https://example.com/a'', Shorten quiet_world ''https://example.com/b'']
     = one_row"
    by (simp_all add: Save_a_create Save_b_collides)
  from Get_NotFound_iff_absent [OF quiet_world_faults(1), of "''zzzzzz''" one_row one_row row_a
      "''012345''" "''abcdef''"
      "[Shorten quiet_world ''https://example.com/a'', Shorten quiet_world ''https://example.com/b'']"]
  show ?thesis
    using h quiet_world_faults(1) unique_inv_examples(2) by (simp only: t) simp
qed

subsection \<open>The shape of a code\<close>

text \<open>
  C4. Every code that a successful Save returns on a reachable database has exactly 6
  characters, each of them in \<open>base62Chars\<close>; that alphabet has 62 distinct symbols, which
  are the digits, the lowercase and the uppercase ASCII letters.
\<close>

theorem Save_code_shape:
  assumes "reachable s" and "SQLitePersistence_Save e s u = (Inr c, s')"
  shows "length c = 6 \<and> (\<forall>ch\<in>set c. ch \<in> set base62Chars \<and> is_alnum ch) \<and>
         length base62Chars = 62 \<and> distinct base62Chars \<and>
         (\<forall>ch. ch \<in> set base62Chars \<longleftrightarrow> is_alnum ch)"
proof -
  have "valid_code c"
    using Save_Inr_cases [OF assms(2)] reachable_valid [OF assms(1)]
      generateShortCode_valid [of e]
    by (auto dest: find_Some_mem)
  then show ?thesis
    by (auto simp: valid_code_def length_base62Chars distinct_base62Chars
        base62Chars_alnum [symmetric])
qed

theorem Save_code_shape_witness:
  "reachable one_row \<and>
   SQLitePersistence_Save later_world one_row ''https://example.com/b'' =
     (Inr ''abcdef'', two_rows) \<and>
   length ''abcdef'' = 6 \<and> set ''abcdef'' \<subseteq> set base62Chars \<and>
   is_alnum (CHR ''a'') \<and> is_alnum (CHR ''f'') \<and>
   length base62Chars = 62 \<and> distinct base62Chars"
  using Save_code_shape [OF reachable_one_row Save_b_later] reachable_one_row Save_b_later
  by auto

subsection \<open>A collision of the generated code\<close>

text \<open>
  C5, as the code has it. When the original is new, the driver does not fail for a reason
  of its own, and the generated code is already the code of a stored row, Save makes no
  second attempt: it returns the driver's error for the UNIQUE constraint on \<open>short\<close>,
  wrapped with the context of the insert, and the database is unchanged.
\<close>

theorem Save_collision_not_retried:
  assumes "query_fault e = None" and "exec_fault e = None"
    and "u \<notin> set (map Original (urls s))"
    and "generateShortCode e \<in> set (map Short (urls s))"
  shows "SQLitePersistence_Save e s u =
           (Inl (Wrapped ''persistence: failed to insert url''
                  (DriverError ''UNIQUE constraint failed: urls.short'')), s)"
proof -
  from assms(3) have "find (\<lambda>r. Original r = u) (urls s) = None"
    by (simp add: find_None_Original)
  with assms show ?thesis
    by (simp add: SQLitePersistence_Save_def select_short_def insert_url_def Let_def)
qed

theorem Save_collision_not_retried_witness:
  "query_fault quiet_world = None \<and> exec_fault quiet_world = None \<and>
   ''https://example.com/c'' \<notin> set (map Original (urls one_row)) \<and>
   generateShortCode quiet_world \<in> set (map Short (urls one_row)) \<and>
   SQLitePersistence_Save quiet_world one_row ''https://example.com/c'' =
     (Inl (Wrapped ''persistence: failed to insert url''
            (DriverError ''UNIQUE constraint failed: urls.short'')), one_row)"
proof -
  have h: "''https://example.com/c'' \<notin> set (map Original (urls one_row))"
    "generateShortCode quiet_world \<in> set (map Short (urls one_row))"
    by (simp_all add: one_row_def row_a_def gen_quiet)
  from Save_collision_not_retried [OF quiet_world_faults h]
  show ?thesis using h quiet_world_faults by simp
qed

text \<open>
  The first Save stores \<open>a\<close> under \<open>012345\<close>. The second one, for \<open>b\<close>, draws the same
  numbers; it ends with the duplicate-key error of the driver although the code
  \<open>abcdef\<close> is free.
\<close>

theorem Save_collision_counterexample:
  "SQLitePersistence_Save quiet_world create_table ''https://example.com/a'' =
     (Inr ''012345'', one_row) \<and>
   SQLitePersistence_Save quiet_world one_row ''https://example.com/b'' =
     (Inl (Wrapped ''persistence: failed to insert url''
            (DriverError ''UNIQUE constraint failed: urls.short'')), one_row) \<and>
   ''abcdef'' \<notin> set (map Short (urls one_row))"
  by (simp add: Save_a_create Save_b_collides) (simp add: one_row_def row_a_def)

subsection \<open>Uniqueness\<close>

text \<open>
  C6. Every reachable database has pairwise different originals and pairwise different
  codes; Save and Get keep both properties. Hence, starting from such a database, when
  Save returns \<open>c1\<close> for \<open>u1\<close> and, after any further calls, returns \<open>c2\<close> for a different
  \<open>u2\<close>, the two codes differ.
\<close>

theorem uniqueness_invariant:
  "(reachable s \<longrightarrow> unique_inv s) \<and>
   (unique_inv s \<longrightarrow> unique_inv (snd (SQLitePersistence_Save e s u)) \<and>
                     unique_inv (snd (SQLitePersistence_Get e s c))) \<and>
   (unique_inv s \<and> SQLitePersistence_Save e1 s u1 = (Inr c1, s1) \<and> reaches s1 t \<and>
    SQLitePersistence_Save e2 t u2 = (Inr c2, s2) \<and> u1 \<noteq> u2 \<longrightarrow> c1 \<noteq> c2)"
proof (intro conjI impI)
  assume "reachable s"
  then show "unique_inv s" by (rule reachable_unique_inv)
next
  assume "unique_inv s"
  then show "unique_inv (snd (SQLitePersistence_Save e s u))" by (rule Save_unique_inv)
next
  assume "unique_inv s"
  then show "unique_inv (snd (SQLitePersistence_Get e s c))" by (simp add: Get_same)
next
  assume h: "unique_inv s \<and> SQLitePersistence_Save e1 s u1 = (Inr c1, s1) \<and> reaches s1 t \<and>
    SQLitePersistence_Save e2 t u2 = (Inr c2, s2) \<and> u1 \<noteq> u2"
  then have a1: "SQLitePersistence_Save e1 s u1 = (Inr c1, s1)"
    and a2: "SQLitePersistence_Save e2 t u2 = (Inr c2, s2)" by simp_all
  from h have "unique_inv s1" using Save_unique_inv [of s e1 u1] by simp
  with h have "unique_inv t" by (blast intro: reaches_unique_inv)
  then have inv2: "unique_inv s2" using Save_unique_inv [of t e2 u2] a2 by simp
  from Save_Inr_row [OF a1] obtain r1
    where r1: "r1 \<in> set (urls s1)" "Original r1 = u1" "Short r1 = c1"
    by blast
  from Save_Inr_row [OF a2] obtain r2
    where r2: "r2 \<in> set (urls s2)" "Original r2 = u2" "Short r2 = c2"
    by blast
  from h have "reaches s1 s2" using reaches.reaches_Save [of s1 t e2 u2] a2 by simp
  with r1 have "r1 \<in> set (urls s2)" by (auto dest: reaches_urls)
  with r2 inv2 have "c1 = c2 \<Longrightarrow> r1 = r2"
    using r1 by (auto simp: unique_inv_def distinct_map inj_on_def)
  with r1 r2 h show "c1 \<noteq> c2" by auto
qed

theorem uniqueness_invariant_witness:
  "reachable create_table \<and> unique_inv create_table \<and>
   unique_inv (snd (SQLitePersistence_Save quiet_world create_table ''https://example.com/a'')) \<and>
   unique_inv (snd (SQLitePersistence_Get quiet_world create_table ''012345'')) \<and>
   SQLitePersistence_Save quiet_world create_table ''https://example.com/a'' =
     (Inr ''012345'', one_row) \<and>
   reaches one_row one_row \<and>
   SQLitePersistence_Save later_world one_row ''https://example.com/b'' =
     (Inr ''abcdef'', two_rows) \<and>
   ''https://example.com/a'' \<noteq> ''https://example.com/b'' \<and> ''012345'' \<noteq> ''abcdef''"
proof -
  from uniqueness_invariant [of create_table quiet_world "''https://example.com/a''"
      "''012345''" quiet_world "''https://example.com/a''" "''012345''" one_row one_row
      later_world "''https://example.com/b''" "''abcdef''" two_rows]
  show ?thesis
    using reachable_create_table unique_inv_examples(1) Save_a_create Save_b_later
      reaches_refl [of one_row]
    by simp
qed

subsection \<open>Rows are never changed or removed\<close>

text \<open>
  C7. A row that is in the table before a Save or a Get, whether the call succeeds or
  fails, is in the table after it, with the same \<open>id\<close>, original and code.
\<close>

theorem rows_kept:
  assumes "r \<in> set (urls s)"
  shows "r \<in> set (urls (snd (SQLitePersistence_Save e s u))) \<and>
         r \<in> set (urls (snd (SQLitePersistence_Get e s c)))"
  using assms Save_urls [of e s u] by (auto simp: Get_same)

theorem rows_kept_witness:
  "row_a \<in> set (urls one_row) \<and>
   row_a \<in> set (urls (snd (SQLitePersistence_Save later_world one_row ''https://example.com/b''))) \<and>
   row_a \<in> set (urls (snd (SQLitePersistence_Get later_world one_row ''zzzzzz'')))"
proof -
  have h: "row_a \<in> set (urls one_row)" by (simp add: one_row_def)
  from rows_kept [OF h] show ?thesis using h by blast
qed

subsection \<open>Errors through package core\<close>

text \<open>
  C8. When the persistence behind the core returns an error, \<open>ShortenURL\<close> and \<open>GetURL\<close>
  return that error wrapped with the name of the operation, and every target that
  \<^verbatim>\<open>errors.Is\<close> finds in the error it still finds in the wrapped one; the wrapped error
  of \<open>GetURL\<close> matches \<open>ErrNotFound\<close> exactly when the error of the persistence does. On
  the SQLite persistence, \<open>GetURL\<close> of a code that is not stored returns an error that
  matches \<open>ErrNotFound\<close>, and a failure of the driver returns one that does not.
\<close>

theorem Core_keeps_error_kind:
  "(Save p s u = (Inl err, s') \<longrightarrow>
      ShortenURL p s u = (Inl (Wrapped ''core: failed to shorten url'' err), s') \<and>
      (errors_Is err k \<longrightarrow> errors_Is (Wrapped ''core: failed to shorten url'' err) k)) \<and>
   (Get p' t c' = (Inl err', t') \<longrightarrow>
      GetURL p' t c' = (Inl (Wrapped ''core: failed to get url'' err'), t') \<and>
      (errors_Is err' k' \<longrightarrow> errors_Is (Wrapped ''core: failed to get url'' err') k') \<and>
      (errors_Is (Wrapped ''core: failed to get url'' err') ErrNotFound \<longleftrightarrow>
         errors_Is err' ErrNotFound)) \<and>
   (query_fault e = None \<and> c \<notin> set (map Short (urls d)) \<longrightarrow>
      GetURL (SQLitePersistence e) d c =
        (Inl (Wrapped ''core: failed to get url'' ErrNotFound), d) \<and>
      errors_Is (Wrapped ''core: failed to get url'' ErrNotFound) ErrNotFound) \<and>
   (query_fault e'' = Some m \<longrightarrow>
      (\<exists>x. GetURL (SQLitePersistence e'') d c = (Inl x, d) \<and> \<not> errors_Is x ErrNotFound))"
proof (intro conjI impI)
  assume "query_fault e'' = Some m"
  then have "GetURL (SQLitePersistence e'') d c =
    (Inl (Wrapped ''core: failed to get url''
           (Wrapped ''persistence: failed to get url'' (DriverError m))), d)"
    by (simp add: GetURL_def SQLitePersistence_def SQLitePersistence_Get_def
        select_original_def)
  then show "\<exists>x. GetURL (SQLitePersistence e'') d c = (Inl x, d) \<and> \<not> errors_Is x ErrNotFound"
    by simp
next
  assume "query_fault e = None \<and> c \<notin> set (map Short (urls d))"
  then have "query_fault e = None" "find (\<lambda>r. Short r = c) (urls d) = None"
    by (simp_all add: find_None_Short)
  then show "GetURL (SQLitePersistence e) d c =
      (Inl (Wrapped ''core: failed to get url'' ErrNotFound), d)"
    by (simp add: GetURL_def SQLitePersistence_def SQLitePersistence_Get_def
        select_original_def)
qed (simp_all add: ShortenURL_def GetURL_def)

theorem Core_keeps_error_kind_witness:
  "Save (SQLitePersistence broken_world) one_row ''https://example.com/b'' =
     (Inl (Wrapped ''persistence: failed to query url'' (DriverError ''disk I/O error'')),
      one_row) \<and>
   ShortenURL (SQLitePersistence broken_world) one_row ''https://example.com/b'' =
     (Inl (Wrapped ''core: failed to shorten url''
            (Wrapped ''persistence: failed to query url'' (DriverError ''disk I/O error''))),
      one_row) \<and>
   errors_Is (Wrapped ''persistence: failed to query url'' (DriverError ''disk I/O error''))
     (DriverError ''disk I/O error'') \<and>
   errors_Is (Wrapped ''core: failed to shorten url''
            (Wrapped ''persistence: failed to query url'' (DriverError ''disk I/O error'')))
     (DriverError ''disk I/O error'') \<and>
   Get (SQLitePersistence quiet_world) one_row ''zzzzzz'' = (Inl ErrNotFound, one_row) \<and>
   GetURL (SQLitePersistence quiet_world) one_row ''zzzzzz'' =
     (Inl (Wrapped ''core: failed to get url'' ErrNotFound), one_row) \<and>
   errors_Is ErrNotFound ErrNotFound \<and>
   errors_Is (Wrapped ''core: failed to get url'' ErrNotFound) ErrNotFound \<and>
   query_fault quiet_world = None \<and> ''zzzzzz'' \<notin> set (map Short (urls one_row)) \<and>
   query_fault broken_world = Some ''disk I/O error'' \<and>
   (\<exists>x. GetURL (SQLitePersistence broken_world) one_row ''zzzzzz'' = (Inl x, one_row) \<and>
        \<not> errors_Is x ErrNotFound)"
proof -
  have s: "Save (SQLitePersistence broken_world) one_row ''https://example.com/b'' =
     (Inl (Wrapped ''persistence: failed to query url'' (DriverError ''disk I/O error'')),
      one_row)"
    by (simp add: SQLitePersistence_def SQLitePersistence_Save_def select_short_def
        broken_world_def)
  have g: "Get (SQLitePersistence quiet_world) one_row ''zzzzzz'' = (Inl ErrNotFound, one_row)"
    by (simp add: SQLitePersistence_def SQLitePersistence_Get_def select_original_def
        quiet_world_faults one_row_def row_a_def)
  have h: "''zzzzzz'' \<notin> set (map Short (urls one_row))"
    "query_fault broken_world = Some ''disk I/O error''"
    by (simp_all add: one_row_def row_a_def broken_world_def)
  from Core_keeps_error_kind [of "SQLitePersistence broken_world" one_row
      "''https://example.com/b''"
      "Wrapped ''persistence: failed to query url'' (DriverError ''disk I/O error'')" one_row
      "DriverError ''disk I/O error''"
      "SQLitePersistence quiet_world" one_row "''zzzzzz''" ErrNotFound one_row ErrNotFound
      quiet_world "''zzzzzz''" one_row broken_world "''disk I/O error''"]
  show ?thesis
    using s g h quiet_world_faults(1) by simp
qed

subsection \<open>Get changes nothing\<close>

text \<open>
  C9. \<open>Get\<close> is a pure read: whatever the code and the database, and whether the call
  returns a URL, \<open>ErrNotFound\<close> or a wrapped driver error, the database after the call
  is the database before it.
\<close>

theorem Get_pure_read: "snd (SQLitePersistence_Get e s c) = s"
  by (simp add: SQLitePersistence_Get_def split: sum.splits)

subsection \<open>A failed Save changes nothing\<close>

text \<open>
  C10. When Save returns an error, from the lookup or from the insert, the database after
  the call is the database before it.
\<close>

theorem Save_failure_atomic:
  assumes "fst (SQLitePersistence_Save e s u) = Inl err"
  shows "snd (SQLitePersistence_Save e s u) = s"
  using assms
  by (auto simp: SQLitePersistence_Save_def select_short_def insert_url_def Let_def
      split: option.splits sum.splits if_splits)

theorem Save_failure_atomic_witness:
  "fst (SQLitePersistence_Save quiet_world one_row ''https://example.com/b'') =
     Inl (Wrapped ''persistence: failed to insert url''
           (DriverError ''UNIQUE constraint failed: urls.short'')) \<and>
   snd (SQLitePersistence_Save quiet_world one_row ''https://example.com/b'') = one_row"
proof -
  have h: "fst (SQLitePersistence_Save quiet_world one_row ''https://example.com/b'') =
     Inl (Wrapped ''persistence: failed to insert url''
           (DriverError ''UNIQUE constraint failed: urls.short''))"
    by (simp add: Save_b_collides)
  from Save_failure_atomic [OF h] show ?thesis using h by simp
qed

end
